theory Spec2Isabelle
  imports Complex_Main "HOL-Library.Multiset"
begin

section \<open>JavaScript values of a request\<close>

text \<open>
  \<^verbatim>\<open>express.json()\<close> parses the request body into a JavaScript value before a
  handler runs; a handler reads \<^verbatim>\<open>req.body\<close> by property name only. A finite
  number is a rational. A property that is absent reads as \<^verbatim>\<open>undefined\<close>, which is
  \<open>None\<close> here, and a request without a JSON body has no property at all.
\<close>

datatype jsval =
    JNull
  | JBool bool
  | JNum rat
  | JStr string
  | JArr "jsval list"
  | JObj "(string \<times> jsval) list"

type_synonym jsobject = "string \<rightharpoonup> jsval"

text \<open>
  The operand of \<^verbatim>\<open>!\<close> is converted to a boolean: \<^verbatim>\<open>undefined\<close>, \<^verbatim>\<open>null\<close>,
  \<^verbatim>\<open>false\<close>, \<^verbatim>\<open>0\<close> and the empty string are falsy, every other value (also an empty
  array or object) is truthy.
\<close>

fun truthy :: "jsval option \<Rightarrow> bool" where
  "truthy None = False"
| "truthy (Some JNull) = False"
| "truthy (Some (JBool b)) = b"
| "truthy (Some (JNum x)) = (x \<noteq> 0)"
| "truthy (Some (JStr s)) = (s \<noteq> [])"
| "truthy (Some (JArr xs)) = True"
| "truthy (Some (JObj kvs)) = True"

section \<open>The tasks table\<close>

text \<open>
  Modelled from the spec: the schema of the \<^verbatim>\<open>tasks\<close> table, which the repository
  does not hold. A Task has a server-generated \<^verbatim>\<open>id\<close>, a \<^verbatim>\<open>title\<close>, an optional
  \<^verbatim>\<open>description\<close>, a \<^verbatim>\<open>user_id\<close> and the flag \<^verbatim>\<open>is_completed\<close>, false by
  default. Every data column can hold SQL NULL (\<open>None\<close>): no constraint of the table is
  assumed, so whatever keeps a title or a user_id present is the handlers' doing.
\<close>

record task =
  task_id :: int
  title :: "string option"
  description :: "string option"
  user_id :: "int option"
  is_completed :: "bool option"

text \<open>The table in storage order, and the sequence the next \<^verbatim>\<open>id\<close> is drawn from.\<close>

record database =
  tasks :: "task list"
  tasks_id_seq :: int

section \<open>The connection pool\<close>

text \<open>
  Modelled from the spec: the database behind \<^verbatim>\<open>pool\<close>. Whether a round trip reaches
  the server, and how the server reads a parameter sent for a column (\<open>None\<close>: it rejects
  the value and the statement fails), are not in the repository; they are the fields of
  the pool a handler is run with.
\<close>

record pool =
  reachable :: bool
  id_in :: "string \<Rightarrow> int option"
  title_in :: "jsval \<Rightarrow> string option"
  description_in :: "jsval \<Rightarrow> string option"
  user_id_in :: "jsval \<Rightarrow> int option"
  is_completed_in :: "jsval \<Rightarrow> bool option"

datatype error = Database_error

text \<open>
  A parameter that is \<^verbatim>\<open>undefined\<close> or \<^verbatim>\<open>null\<close> is sent as SQL NULL; any other
  value is read by the column. The outer \<open>None\<close> is a rejected value.
\<close>

fun param :: "(jsval \<Rightarrow> 'a option) \<Rightarrow> jsval option \<Rightarrow> 'a option option" where
  "param f None = Some None"
| "param f (Some JNull) = Some None"
| "param f (Some v) = map_option Some (f v)"

text \<open>\<^verbatim>\<open>SELECT * FROM tasks\<close>\<close>

definition select_tasks :: "pool \<Rightarrow> database \<Rightarrow> (error + task list) \<times> database" where
  "select_tasks p d =
     (if \<not> reachable p then (Inl Database_error, d) else (Inr (tasks d), d))"

text \<open>\<^verbatim>\<open>INSERT INTO tasks (title, description, user_id) VALUES ($1, $2, $3) RETURNING *\<close>\<close>

definition insert_task ::
  "pool \<Rightarrow> jsval option \<Rightarrow> jsval option \<Rightarrow> jsval option \<Rightarrow> database
     \<Rightarrow> (error + task list) \<times> database" where
  "insert_task p t de u d =
     (if \<not> reachable p then (Inl Database_error, d)
      else case param (title_in p) t of
        None \<Rightarrow> (Inl Database_error, d)
      | Some t' \<Rightarrow>
         (case param (description_in p) de of
            None \<Rightarrow> (Inl Database_error, d)
          | Some de' \<Rightarrow>
             (case param (user_id_in p) u of
                None \<Rightarrow> (Inl Database_error, d)
              | Some u' \<Rightarrow>
                 (let r = \<lparr>task_id = tasks_id_seq d, title = t', description = de',
                           user_id = u', is_completed = Some False\<rparr>
                  in (Inr [r],
                      d\<lparr>tasks := tasks d @ [r], tasks_id_seq := tasks_id_seq d + 1\<rparr>)))))"

text \<open>
  \<^verbatim>\<open>UPDATE tasks SET is_completed = $1 WHERE id = $2 RETURNING *\<close>. The server
  writes the new version of an updated row behind the rows that stay, so a later
  \<^verbatim>\<open>SELECT\<close> without \<^verbatim>\<open>ORDER BY\<close> lists it last.
\<close>

definition update_task ::
  "pool \<Rightarrow> jsval option \<Rightarrow> string \<Rightarrow> database \<Rightarrow> (error + task list) \<times> database" where
  "update_task p v i d =
     (if \<not> reachable p then (Inl Database_error, d)
      else case param (is_completed_in p) v of
        None \<Rightarrow> (Inl Database_error, d)
      | Some v' \<Rightarrow>
         (case id_in p i of
            None \<Rightarrow> (Inl Database_error, d)
          | Some k \<Rightarrow>
             (Inr (map (\<lambda>r. r\<lparr>is_completed := v'\<rparr>) (filter (\<lambda>r. task_id r = k) (tasks d))),
              d\<lparr>tasks := filter (\<lambda>r. task_id r \<noteq> k) (tasks d)
                          @ map (\<lambda>r. r\<lparr>is_completed := v'\<rparr>)
                              (filter (\<lambda>r. task_id r = k) (tasks d))\<rparr>)))"

text \<open>\<^verbatim>\<open>DELETE FROM tasks WHERE id = $1 RETURNING *\<close>\<close>

definition delete_task ::
  "pool \<Rightarrow> string \<Rightarrow> database \<Rightarrow> (error + task list) \<times> database" where
  "delete_task p i d =
     (if \<not> reachable p then (Inl Database_error, d)
      else case id_in p i of
        None \<Rightarrow> (Inl Database_error, d)
      | Some k \<Rightarrow>
         (Inr (filter (\<lambda>r. task_id r = k) (tasks d)),
          d\<lparr>tasks := filter (\<lambda>r. task_id r \<noteq> k) (tasks d)\<rparr>))"

section \<open>The route handlers\<close>

text \<open>What \<^verbatim>\<open>res.json\<close> is given, and the status it is sent with (200 unless set).\<close>

datatype payload =
    Undefined
  | Error_body string
  | Row task
  | Rows "task list"
  | Message_task string task

record response =
  status :: nat
  payload :: payload

text \<open>\<^verbatim>\<open>result.rows[0]\<close>: reading past the end of an array gives \<^verbatim>\<open>undefined\<close>.\<close>

fun first_row :: "task list \<Rightarrow> payload" where
  "first_row [] = Undefined"
| "first_row (r # rs) = Row r"

text \<open>\<^verbatim>\<open>app.get('/tasks', ...)\<close>\<close>

definition get_tasks :: "pool \<Rightarrow> database \<Rightarrow> response \<times> database" where
  "get_tasks p d =
     (case select_tasks p d of
        (Inr rs, d') \<Rightarrow> (\<lparr>status = 200, payload = Rows rs\<rparr>, d')
      | (Inl e, d') \<Rightarrow> (\<lparr>status = 500, payload = Error_body ''Error al obtener tareas''\<rparr>, d'))"

text \<open>\<^verbatim>\<open>app.post('/tasks', ...)\<close>\<close>

definition post_tasks :: "pool \<Rightarrow> jsobject \<Rightarrow> database \<Rightarrow> response \<times> database" where
  "post_tasks p body d =
     (let t = body ''title''; de = body ''description''; u = body ''user_id'' in
      if \<not> truthy t \<or> \<not> truthy u
      then (\<lparr>status = 400, payload = Error_body ''Faltan campos obligatorios''\<rparr>, d)
      else case insert_task p t de u d of
        (Inr rs, d') \<Rightarrow> (\<lparr>status = 201, payload = first_row rs\<rparr>, d')
      | (Inl e, d') \<Rightarrow> (\<lparr>status = 500, payload = Error_body ''Error al crear la tarea''\<rparr>, d'))"

text \<open>\<^verbatim>\<open>app.put('/tasks/:id', ...)\<close>\<close>

definition put_tasks_id :: "pool \<Rightarrow> string \<Rightarrow> jsobject \<Rightarrow> database \<Rightarrow> response \<times> database" where
  "put_tasks_id p i body d =
     (let c = body ''is_completed'' in
      case update_task p c i d of
        (Inr [], d') \<Rightarrow> (\<lparr>status = 404, payload = Error_body ''Tarea no encontrada''\<rparr>, d')
      | (Inr (r # rs), d') \<Rightarrow> (\<lparr>status = 200, payload = Row r\<rparr>, d')
      | (Inl e, d') \<Rightarrow>
          (\<lparr>status = 500, payload = Error_body ''Error al actualizar la tarea''\<rparr>, d'))"

text \<open>\<^verbatim>\<open>app.delete('/tasks/:id', ...)\<close>\<close>

definition delete_tasks_id :: "pool \<Rightarrow> string \<Rightarrow> database \<Rightarrow> response \<times> database" where
  "delete_tasks_id p i d =
     (case delete_task p i d of
        (Inr [], d') \<Rightarrow> (\<lparr>status = 404, payload = Error_body ''Tarea no encontrada''\<rparr>, d')
      | (Inr (r # rs), d') \<Rightarrow>
          (\<lparr>status = 200, payload = Message_task ''Tarea eliminada correctamente'' r\<rparr>, d')
      | (Inl e, d') \<Rightarrow>
          (\<lparr>status = 500, payload = Error_body ''Error al eliminar la tarea''\<rparr>, d'))"

section \<open>Requests in sequence\<close>

datatype request =
    Get_tasks
  | Post_tasks jsobject
  | Put_tasks_id string jsobject
  | Delete_tasks_id string

fun handle :: "pool \<Rightarrow> request \<Rightarrow> database \<Rightarrow> response \<times> database" where
  "handle p Get_tasks d = get_tasks p d"
| "handle p (Post_tasks body) d = post_tasks p body d"
| "handle p (Put_tasks_id i body) d = put_tasks_id p i body d"
| "handle p (Delete_tasks_id i) d = delete_tasks_id p i d"

text \<open>
  The requests are served one after the other, each with the pool as it is at that
  moment; the trace pairs every request with its response.
\<close>

fun serve :: "(pool \<times> request) list \<Rightarrow> database \<Rightarrow> (request \<times> response) list \<times> database" where
  "serve [] d = ([], d)"
| "serve ((p, q) # qs) d =
     (case handle p q d of
        (res, d') \<Rightarrow> (case serve qs d' of (trace, d'') \<Rightarrow> ((q, res) # trace, d'')))"

section \<open>Properties of the table and of a trace\<close>

text \<open>
  The \<^verbatim>\<open>id\<close> column identifies a row: no two rows share an id, and every id in the
  table was drawn from the sequence already.
\<close>

definition well_keyed :: "database \<Rightarrow> bool" where
  "well_keyed d \<longleftrightarrow>
     distinct (map task_id (tasks d)) \<and> list_all (\<lambda>r. task_id r < tasks_id_seq d) (tasks d)"

text \<open>A request that creates a task or deletes one.\<close>

definition is_create_or_delete :: "request \<Rightarrow> bool" where
  "is_create_or_delete q =
     (case q of Post_tasks body \<Rightarrow> True | Delete_tasks_id i \<Rightarrow> True | _ \<Rightarrow> False)"

text \<open>
  The tasks a trace created (the rows of its 201 responses to \<^verbatim>\<open>POST /tasks\<close>) and
  the tasks it deleted (the rows of its 200 responses to \<^verbatim>\<open>DELETE /tasks/:id\<close>).
\<close>

fun created :: "(request \<times> response) list \<Rightarrow> task list" where
  "created [] = []"
| "created ((Post_tasks body, res) # xs) =
     (if status res = 201
      then (case payload res of Row r \<Rightarrow> r # created xs | _ \<Rightarrow> created xs)
      else created xs)"
| "created ((q, res) # xs) = created xs"

fun deleted :: "(request \<times> response) list \<Rightarrow> task list" where
  "deleted [] = []"
| "deleted ((Delete_tasks_id i, res) # xs) =
     (if status res = 200
      then (case payload res of Message_task m r \<Rightarrow> r # deleted xs | _ \<Rightarrow> deleted xs)
      else deleted xs)"
| "deleted ((q, res) # xs) = deleted xs"

text \<open>The invariant of the data model: a non-empty title and a user_id.\<close>

definition persisted_ok :: "task \<Rightarrow> bool" where
  "persisted_ok r \<longleftrightarrow>
     (case title r of None \<Rightarrow> False | Some s \<Rightarrow> s \<noteq> []) \<and> user_id r \<noteq> None"

text \<open>
  The one fact about the database the invariant rests on: a truthy value sent for the
  title column is never read as the empty text.
\<close>

definition keeps_title :: "pool \<Rightarrow> bool" where
  "keeps_title p \<longleftrightarrow> (\<forall>v. truthy (Some v) \<longrightarrow> title_in p v \<noteq> Some [])"

section \<open>A sample database\<close>

text \<open>
  A pool for the worked examples: the server is reachable, reads \<^verbatim>\<open>:id\<close> as a
  decimal numeral, a text column from a string, \<^verbatim>\<open>user_id\<close> from an integral
  number and \<^verbatim>\<open>is_completed\<close> from a boolean, and rejects everything else.
\<close>

definition digit_in :: "char \<Rightarrow> int option" where
  "digit_in c =
     (if 48 \<le> (of_char c :: nat) \<and> (of_char c :: nat) \<le> 57
      then Some (int (of_char c) - 48) else None)"

fun digits_in :: "int \<Rightarrow> string \<Rightarrow> int option" where
  "digits_in n [] = Some n"
| "digits_in n (c # cs) =
     (case digit_in c of None \<Rightarrow> None | Some k \<Rightarrow> digits_in (10 * n + k) cs)"

definition decimal_in :: "string \<Rightarrow> int option" where
  "decimal_in s = (if s = [] then None else digits_in 0 s)"

definition text_in :: "jsval \<Rightarrow> string option" where
  "text_in v = (case v of JStr s \<Rightarrow> Some s | _ \<Rightarrow> None)"

definition integer_in :: "jsval \<Rightarrow> int option" where
  "integer_in v =
     (case v of JNum x \<Rightarrow> (if of_int \<lfloor>x\<rfloor> = x then Some \<lfloor>x\<rfloor> else None) | _ \<Rightarrow> None)"

definition boolean_in :: "jsval \<Rightarrow> bool option" where
  "boolean_in v = (case v of JBool b \<Rightarrow> Some b | _ \<Rightarrow> None)"

definition sample_pool :: pool where
  "sample_pool =
     \<lparr>reachable = True, id_in = decimal_in, title_in = text_in, description_in = text_in,
      user_id_in = integer_in, is_completed_in = boolean_in\<rparr>"

text \<open>Two stored tasks, a table holding them, and request bodies.\<close>

definition task_a :: task where
  "task_a = \<lparr>task_id = 1, title = Some ''buy milk'', description = None, user_id = Some 7,
             is_completed = Some False\<rparr>"

definition task_b :: task where
  "task_b = \<lparr>task_id = 2, title = Some ''call home'', description = Some ''on sunday'',
             user_id = Some 8, is_completed = Some True\<rparr>"

definition sample_db :: database where
  "sample_db = \<lparr>tasks = [task_a, task_b], tasks_id_seq = 3\<rparr>"

definition empty_db :: database where
  "empty_db = \<lparr>tasks = [], tasks_id_seq = 1\<rparr>"

definition full_body :: jsobject where
  "full_body = [''title'' \<mapsto> JStr ''write tests'', ''user_id'' \<mapsto> JNum 7]"

definition blank_title_body :: jsobject where
  "blank_title_body = [''title'' \<mapsto> JStr '''', ''user_id'' \<mapsto> JNum 7]"

definition zero_user_body :: jsobject where
  "zero_user_body = [''title'' \<mapsto> JStr ''write tests'', ''user_id'' \<mapsto> JNum 0]"

definition no_user_body :: jsobject where
  "no_user_body = [''title'' \<mapsto> JStr ''write tests'']"

definition done_body :: jsobject where
  "done_body = [''is_completed'' \<mapsto> JBool True]"

definition undone_body :: jsobject where
  "undone_body = [''is_completed'' \<mapsto> JBool False]"

definition maybe_body :: jsobject where
  "maybe_body = [''is_completed'' \<mapsto> JStr ''maybe'']"

text \<open>
  A server is sent every parameter as text, and reads an integer column from a string of
  digits as well as from a number. The pool below does so for \<^verbatim>\<open>user_id\<close>.
\<close>

definition integer_text_in :: "jsval \<Rightarrow> int option" where
  "integer_text_in v = (case v of JStr s \<Rightarrow> decimal_in s | _ \<Rightarrow> integer_in v)"

definition lenient_pool :: pool where
  "lenient_pool = sample_pool\<lparr>user_id_in := integer_text_in\<rparr>"

definition zero_text_body :: jsobject where
  "zero_text_body = [''title'' \<mapsto> JStr ''write tests'', ''user_id'' \<mapsto> JStr ''0'']"

definition sample_requests :: "(pool \<times> request) list" where
  "sample_requests =
     [(sample_pool, Post_tasks full_body),
      (sample_pool, Post_tasks blank_title_body),
      (sample_pool, Delete_tasks_id ''1''),
      (sample_pool\<lparr>reachable := False\<rparr>, Post_tasks full_body),
      (sample_pool, Delete_tasks_id ''7''),
      (sample_pool, Post_tasks full_body)]"

section \<open>Parameters and the guard of the create handler\<close>

lemma truthy_param:
  assumes "truthy v"
  shows "\<exists>x. v = Some x \<and> param f v = map_option Some (f x)"
  using assms by (cases v rule: truthy.cases) simp_all

lemma param_truthy_not_null: "truthy v \<Longrightarrow> param f v = Some y \<Longrightarrow> y \<noteq> None"
  by (cases v rule: truthy.cases) auto

lemma truthy_param_reads:
  "truthy v \<Longrightarrow> param f v = Some y \<Longrightarrow> \<exists>x. v = Some x \<and> f x = y \<and> y \<noteq> None"
  by (cases v rule: truthy.cases) auto

lemma falsy_iff:
  "\<not> truthy v \<longleftrightarrow>
     v = None \<or> v = Some JNull \<or> v = Some (JBool False) \<or> v = Some (JNum 0) \<or> v = Some (JStr [])"
  by (cases v rule: truthy.cases) auto

lemma post_tasks_guard:
  "\<not> truthy (body ''title'') \<or> \<not> truthy (body ''user_id'') \<Longrightarrow>
   post_tasks p body d =
     (\<lparr>status = 400, payload = Error_body ''Faltan campos obligatorios''\<rparr>, d)"
  by (auto simp: post_tasks_def Let_def)

lemma post_tasks_status:
  "truthy (body ''title'') \<Longrightarrow> truthy (body ''user_id'') \<Longrightarrow>
   status (fst (post_tasks p body d)) = 201 \<or> status (fst (post_tasks p body d)) = 500"
  by (simp add: post_tasks_def insert_task_def Let_def split: option.splits)

lemma post_tasks_inserted:
  assumes "truthy (body ''title'')" and "truthy (body ''user_id'')" and "reachable p"
    and "param (title_in p) (body ''title'') = Some t"
    and "param (description_in p) (body ''description'') = Some de"
    and "param (user_id_in p) (body ''user_id'') = Some u"
  shows "post_tasks p body d =
     (\<lparr>status = 201,
       payload = Row \<lparr>task_id = tasks_id_seq d, title = t, description = de, user_id = u,
                      is_completed = Some False\<rparr>\<rparr>,
      d\<lparr>tasks := tasks d @ [\<lparr>task_id = tasks_id_seq d, title = t, description = de,
                              user_id = u, is_completed = Some False\<rparr>],
        tasks_id_seq := tasks_id_seq d + 1\<rparr>)"
  using assms by (simp add: post_tasks_def insert_task_def Let_def)

lemma post_tasks_cases:
  assumes "post_tasks p body d = (res, d')"
  shows "(d' = d \<and> status res \<noteq> 201) \<or>
         (\<exists>t de u. status res = 201 \<and> truthy (body ''title'') \<and> truthy (body ''user_id'')
            \<and> param (title_in p) (body ''title'') = Some t
            \<and> param (user_id_in p) (body ''user_id'') = Some u
            \<and> payload res = Row \<lparr>task_id = tasks_id_seq d, title = t, description = de, user_id = u,
                      is_completed = Some False\<rparr>
            \<and> d' = d\<lparr>tasks := tasks d @ [\<lparr>task_id = tasks_id_seq d, title = t, description = de,
                              user_id = u, is_completed = Some False\<rparr>],
                  tasks_id_seq := tasks_id_seq d + 1\<rparr>)"
  using assms
  by (auto simp: post_tasks_def insert_task_def Let_def split: if_splits option.splits)

section \<open>Selecting rows by id\<close>

lemma filter_none_id:
  "filter (\<lambda>r. task_id r = k) xs = [] \<Longrightarrow> filter (\<lambda>r. task_id r \<noteq> k) xs = xs"
  by (induction xs) (auto split: if_splits)

lemma map_none_id:
  "filter (\<lambda>r. task_id r = k) xs = [] \<Longrightarrow>
   map (\<lambda>r. if task_id r = k then f r else r) xs = xs"
  by (induction xs) (auto split: if_splits)

lemma filter_absent: "k \<notin> task_id ` set xs \<Longrightarrow> filter (\<lambda>r. task_id r = k) xs = []"
  by (induction xs) auto

lemma filter_unique:
  "distinct (map task_id xs) \<Longrightarrow> r \<in> set xs \<Longrightarrow> filter (\<lambda>x. task_id x = task_id r) xs = [r]"
  by (induction xs) (auto simp: filter_absent image_iff)

lemma filter_others:
  "distinct (map task_id xs) \<Longrightarrow> r \<in> set xs \<Longrightarrow>
   filter (\<lambda>x. task_id x \<noteq> task_id r) xs = remove1 r xs"
proof (induction xs)
  case Nil
  then show ?case by simp
next
  case (Cons x xs)
  show ?case
  proof (cases "x = r")
    case True
    with Cons.prems have "task_id r \<notin> task_id ` set xs" by simp
    then have "filter (\<lambda>x. task_id x = task_id r) xs = []" by (rule filter_absent)
    then have "filter (\<lambda>x. task_id x \<noteq> task_id r) xs = xs" by (rule filter_none_id)
    with True show ?thesis by simp
  next
    case False
    with Cons.prems have "r \<in> set xs" and "distinct (map task_id xs)" by simp_all
    moreover from Cons.prems \<open>r \<in> set xs\<close> have "task_id x \<noteq> task_id r" by force
    ultimately show ?thesis using False Cons.IH by simp
  qed
qed

lemma delete_tasks_id_cases:
  assumes "delete_tasks_id p i d = (res, d')"
  shows "(d' = d \<and> status res \<noteq> 200) \<or>
         (\<exists>k r. id_in p i = Some k \<and> reachable p \<and> status res = 200
            \<and> payload res = Message_task ''Tarea eliminada correctamente'' r
            \<and> r \<in> set (tasks d) \<and> task_id r = k
            \<and> d' = d\<lparr>tasks := filter (\<lambda>x. task_id x \<noteq> k) (tasks d)\<rparr>)"
proof (cases "reachable p")
  case False
  with assms show ?thesis by (auto simp: delete_tasks_id_def delete_task_def)
next
  case True
  show ?thesis
  proof (cases "id_in p i")
    case None
    with True assms show ?thesis by (auto simp: delete_tasks_id_def delete_task_def)
  next
    case (Some k)
    show ?thesis
    proof (cases "filter (\<lambda>r. task_id r = k) (tasks d)")
      case Nil
      then have "filter (\<lambda>r. task_id r \<noteq> k) (tasks d) = tasks d" by (rule filter_none_id)
      with Nil Some True assms show ?thesis
        by (auto simp: delete_tasks_id_def delete_task_def)
    next
      case (Cons r rs)
      then have "r \<in> set (filter (\<lambda>r. task_id r = k) (tasks d))" by simp
      then have "r \<in> set (tasks d)" "task_id r = k" by simp_all
      with Cons Some True assms show ?thesis
        by (auto simp: delete_tasks_id_def delete_task_def)
    qed
  qed
qed

lemmas sample_defs =
  sample_pool_def decimal_in_def digit_in_def text_in_def integer_in_def boolean_in_def
  task_a_def task_b_def sample_db_def empty_db_def

section \<open>Creating a task\<close>

text \<open>
  A body can hold both fields and still be refused: the title below is present, and empty.
\<close>

theorem post_tasks_blank_title_rejected:
  "blank_title_body ''title'' \<noteq> None \<and> blank_title_body ''user_id'' \<noteq> None \<and>
   post_tasks sample_pool blank_title_body sample_db =
     (\<lparr>status = 400, payload = Error_body ''Faltan campos obligatorios''\<rparr>, sample_db)"
  by (simp add: post_tasks_def blank_title_body_def)

text \<open>
  Claim C1, amended. For every \<^verbatim>\<open>POST /tasks\<close> request whose \<^verbatim>\<open>title\<close> and
  \<^verbatim>\<open>user_id\<close> are truthy, and whose INSERT the database executes (it is reachable
  and reads the three parameters), the handler appends one row holding the title, the
  description (NULL when the body has none) and the user_id as the database read them,
  with the next id of the sequence and the default flag, and responds 201 with that row.
\<close>

theorem post_tasks_created:
  assumes "truthy (body ''title'')" and "truthy (body ''user_id'')"
    and "reachable p"
    and "param (title_in p) (body ''title'') = Some t"
    and "param (description_in p) (body ''description'') = Some de"
    and "param (user_id_in p) (body ''user_id'') = Some u"
  shows "post_tasks p body d =
     (\<lparr>status = 201,
       payload = Row \<lparr>task_id = tasks_id_seq d, title = t, description = de, user_id = u,
                      is_completed = Some False\<rparr>\<rparr>,
      d\<lparr>tasks := tasks d @ [\<lparr>task_id = tasks_id_seq d, title = t, description = de,
                              user_id = u, is_completed = Some False\<rparr>],
        tasks_id_seq := tasks_id_seq d + 1\<rparr>)
     \<and> (\<exists>x. body ''title'' = Some x \<and> title_in p x = t \<and> t \<noteq> None)
     \<and> (\<exists>y. body ''user_id'' = Some y \<and> user_id_in p y = u \<and> u \<noteq> None)
     \<and> (body ''description'' = None \<longrightarrow> de = None)"
proof -
  from assms(1,4) have "\<exists>x. body ''title'' = Some x \<and> title_in p x = t \<and> t \<noteq> None"
    by (rule truthy_param_reads)
  moreover from assms(2,6)
  have "\<exists>y. body ''user_id'' = Some y \<and> user_id_in p y = u \<and> u \<noteq> None"
    by (rule truthy_param_reads)
  moreover from assms(5) have "body ''description'' = None \<longrightarrow> de = None" by auto
  ultimately show ?thesis using post_tasks_inserted [OF assms] by simp
qed

theorem post_tasks_created_witness:
  "truthy (full_body ''title'') \<and> truthy (full_body ''user_id'') \<and> reachable sample_pool \<and>
   post_tasks sample_pool full_body sample_db =
     (\<lparr>status = 201,
       payload = Row \<lparr>task_id = 3, title = Some ''write tests'', description = None,
                      user_id = Some 7, is_completed = Some False\<rparr>\<rparr>,
      \<lparr>tasks = [task_a, task_b,
                \<lparr>task_id = 3, title = Some ''write tests'', description = None,
                 user_id = Some 7, is_completed = Some False\<rparr>],
       tasks_id_seq = 4\<rparr>)"
proof -
  have a: "truthy (full_body ''title'')" and b: "truthy (full_body ''user_id'')"
    by (simp_all add: full_body_def)
  have c: "reachable sample_pool" by (simp add: sample_pool_def)
  have t: "param (title_in sample_pool) (full_body ''title'') = Some (Some ''write tests'')"
    by (simp add: full_body_def sample_pool_def text_in_def)
  have de: "param (description_in sample_pool) (full_body ''description'') = Some None"
    by (simp add: full_body_def)
  have u: "param (user_id_in sample_pool) (full_body ''user_id'') = Some (Some 7)"
    by (simp add: full_body_def sample_pool_def integer_in_def)
  show ?thesis
    using post_tasks_created [OF a b c t de u, of sample_db] a b c
    by (simp add: sample_db_def)
qed

text \<open>A body holding both fields, the user_id being the number 0, is answered 400.\<close>

theorem post_tasks_zero_user_rejected:
  "zero_user_body ''title'' \<noteq> None \<and> zero_user_body ''user_id'' \<noteq> None \<and>
   status (fst (post_tasks sample_pool zero_user_body sample_db)) = 400"
  by (simp add: post_tasks_def zero_user_body_def)

text \<open>
  Claim C2, amended. The response to \<^verbatim>\<open>POST /tasks\<close> is 400 exactly when
  \<^verbatim>\<open>title\<close> or \<^verbatim>\<open>user_id\<close> is falsy, that is absent, null, false, 0 or the
  empty string; in particular a request whose body lacks one of them is answered 400, and
  the table is left as it was.
\<close>

theorem post_tasks_400_iff:
  "(status (fst (post_tasks p body d)) = 400 \<longleftrightarrow>
      \<not> truthy (body ''title'') \<or> \<not> truthy (body ''user_id'')) \<and>
   (body ''title'' = None \<or> body ''user_id'' = None \<longrightarrow>
      post_tasks p body d =
        (\<lparr>status = 400, payload = Error_body ''Faltan campos obligatorios''\<rparr>, d))"
proof -
  have "status (fst (post_tasks p body d)) = 400"
    if "\<not> truthy (body ''title'') \<or> \<not> truthy (body ''user_id'')"
    using post_tasks_guard [OF that] by simp
  moreover have "status (fst (post_tasks p body d)) \<noteq> 400"
    if "\<not> (\<not> truthy (body ''title'') \<or> \<not> truthy (body ''user_id''))"
    using that post_tasks_status [of body p d] by auto
  moreover have "post_tasks p body d =
        (\<lparr>status = 400, payload = Error_body ''Faltan campos obligatorios''\<rparr>, d)"
    if "body ''title'' = None \<or> body ''user_id'' = None"
    using that by (intro post_tasks_guard) auto
  ultimately show ?thesis by blast
qed

theorem post_tasks_400_iff_witness:
  "no_user_body ''user_id'' = None \<and>
   post_tasks sample_pool no_user_body sample_db =
     (\<lparr>status = 400, payload = Error_body ''Faltan campos obligatorios''\<rparr>, sample_db) \<and>
   status (fst (post_tasks sample_pool full_body sample_db)) \<noteq> 400"
proof -
  have "no_user_body ''user_id'' = None" by (simp add: no_user_body_def)
  moreover have "truthy (full_body ''title'')" "truthy (full_body ''user_id'')"
    by (simp_all add: full_body_def)
  ultimately show ?thesis
    using post_tasks_400_iff [of sample_pool no_user_body sample_db]
      post_tasks_400_iff [of sample_pool full_body sample_db]
    by simp
qed

section \<open>Updating, deleting and listing\<close>

lemma updated_rows_mset:
  "mset (filter (\<lambda>r. task_id r \<noteq> k) xs
         @ map (\<lambda>r. r\<lparr>is_completed := v\<rparr>) (filter (\<lambda>r. task_id r = k) xs))
     = mset (map (\<lambda>r. if task_id r = k then r\<lparr>is_completed := v\<rparr> else r) xs)"
  by (induction xs) simp_all

lemma put_tasks_id_found:
  assumes "reachable p" and "id_in p i = Some k"
    and "param (is_completed_in p) (body ''is_completed'') = Some v"
    and "r \<in> set (tasks d)" and "task_id r = k" and "distinct (map task_id (tasks d))"
  shows "put_tasks_id p i body d =
     (\<lparr>status = 200, payload = Row (r\<lparr>is_completed := v\<rparr>)\<rparr>,
      d\<lparr>tasks := remove1 r (tasks d) @ [r\<lparr>is_completed := v\<rparr>]\<rparr>)"
proof -
  from assms(4-6) have "filter (\<lambda>x. task_id x = k) (tasks d) = [r]"
    using filter_unique [of "tasks d" r] by simp
  moreover from assms(4-6) have "filter (\<lambda>x. task_id x \<noteq> k) (tasks d) = remove1 r (tasks d)"
    using filter_others [of "tasks d" r] by simp
  ultimately show ?thesis using assms(1-3)
    by (simp add: put_tasks_id_def update_task_def)
qed

lemma put_tasks_id_found_mset:
  assumes "reachable p" and "id_in p i = Some k"
    and "param (is_completed_in p) (body ''is_completed'') = Some v"
    and "r \<in> set (tasks d)" and "task_id r = k" and "distinct (map task_id (tasks d))"
  shows "fst (put_tasks_id p i body d) =
           \<lparr>status = 200, payload = Row (r\<lparr>is_completed := v\<rparr>)\<rparr>"
    and "mset (tasks (snd (put_tasks_id p i body d))) =
           add_mset (r\<lparr>is_completed := v\<rparr>) (mset (tasks d) - {#r#})"
    and "tasks_id_seq (snd (put_tasks_id p i body d)) = tasks_id_seq d"
  using put_tasks_id_found [where body = body, OF assms] assms(4) by simp_all

lemma put_tasks_id_missing:
  assumes "reachable p" and "id_in p i = Some k"
    and "param (is_completed_in p) (body ''is_completed'') = Some v"
    and "k \<notin> task_id ` set (tasks d)"
  shows "put_tasks_id p i body d =
     (\<lparr>status = 404, payload = Error_body ''Tarea no encontrada''\<rparr>, d)"
proof -
  from assms(4) have none: "filter (\<lambda>x. task_id x = k) (tasks d) = []"
    by (rule filter_absent)
  then have "filter (\<lambda>x. task_id x \<noteq> k) (tasks d) = tasks d"
    by (rule filter_none_id)
  with none assms(1-3) show ?thesis
    by (simp add: put_tasks_id_def update_task_def)
qed

lemma put_tasks_id_failed:
  assumes "\<not> (reachable p \<and> id_in p i \<noteq> None
              \<and> param (is_completed_in p) (body ''is_completed'') \<noteq> None)"
  shows "put_tasks_id p i body d =
     (\<lparr>status = 500, payload = Error_body ''Error al actualizar la tarea''\<rparr>, d)"
  using assms by (auto simp: put_tasks_id_def update_task_def split: option.splits)

lemma delete_tasks_id_failed:
  assumes "\<not> (reachable p \<and> id_in p i \<noteq> None)"
  shows "delete_tasks_id p i d =
     (\<lparr>status = 500, payload = Error_body ''Error al eliminar la tarea''\<rparr>, d)"
  using assms by (auto simp: delete_tasks_id_def delete_task_def split: option.splits)

lemma delete_tasks_id_missing:
  assumes "reachable p" and "id_in p i = Some k" and "k \<notin> task_id ` set (tasks d)"
  shows "delete_tasks_id p i d =
     (\<lparr>status = 404, payload = Error_body ''Tarea no encontrada''\<rparr>, d)"
proof -
  from assms(3) have none: "filter (\<lambda>x. task_id x = k) (tasks d) = []"
    by (rule filter_absent)
  then have "filter (\<lambda>x. task_id x \<noteq> k) (tasks d) = tasks d"
    by (rule filter_none_id)
  with none assms(1,2) show ?thesis
    by (simp add: delete_tasks_id_def delete_task_def)
qed

lemma delete_tasks_id_found:
  assumes "reachable p" and "id_in p i = Some k"
    and "r \<in> set (tasks d)" and "task_id r = k" and "distinct (map task_id (tasks d))"
  shows "delete_tasks_id p i d =
     (\<lparr>status = 200, payload = Message_task ''Tarea eliminada correctamente'' r\<rparr>,
      d\<lparr>tasks := remove1 r (tasks d)\<rparr>)"
proof -
  from assms(3-5) have "filter (\<lambda>x. task_id x = k) (tasks d) = [r]"
    using filter_unique [of "tasks d" r] by simp
  moreover from assms(3-5) have "filter (\<lambda>x. task_id x \<noteq> k) (tasks d) = remove1 r (tasks d)"
    using filter_others [of "tasks d" r] by simp
  ultimately show ?thesis using assms(1,2)
    by (simp add: delete_tasks_id_def delete_task_def)
qed

lemma get_tasks_reachable:
  "reachable p \<Longrightarrow> get_tasks p d = (\<lparr>status = 200, payload = Rows (tasks d)\<rparr>, d)"
  by (simp add: get_tasks_def select_tasks_def)

text \<open>
  A row can match and nothing be set: the server does not read the string below as a
  boolean, the statement fails, and the answer is 500.
\<close>

theorem put_tasks_id_unread_flag_fails:
  "task_a \<in> set (tasks sample_db) \<and> id_in sample_pool ''1'' = Some (task_id task_a) \<and>
   maybe_body ''is_completed'' = Some (JStr ''maybe'') \<and>
   put_tasks_id sample_pool ''1'' maybe_body sample_db =
     (\<lparr>status = 500, payload = Error_body ''Error al actualizar la tarea''\<rparr>, sample_db)"
  by (simp add: put_tasks_id_def update_task_def sample_defs maybe_body_def)

text \<open>
  Claim C3, amended. For every \<^verbatim>\<open>PUT /tasks/:id\<close> request where a row matches
  \<^verbatim>\<open>:id\<close> (ids identify rows) and whose UPDATE the database executes (it is reachable,
  reads \<^verbatim>\<open>:id\<close>, and reads the body's \<^verbatim>\<open>is_completed\<close>, NULL when the body has
  none), the handler sets that row's \<^verbatim>\<open>is_completed\<close> to the value read and responds
  200 with the updated row; the table holds the updated row in place of the old one and
  every other row as before, in whatever order.
\<close>

theorem put_tasks_id_sets_flag:
  assumes "reachable p" and "id_in p i = Some k"
    and "param (is_completed_in p) (body ''is_completed'') = Some v"
    and "r \<in> set (tasks d)" and "task_id r = k" and "distinct (map task_id (tasks d))"
  shows "fst (put_tasks_id p i body d) =
           \<lparr>status = 200, payload = Row (r\<lparr>is_completed := v\<rparr>)\<rparr>
    \<and> mset (tasks (snd (put_tasks_id p i body d))) =
           add_mset (r\<lparr>is_completed := v\<rparr>) (mset (tasks d) - {#r#})
    \<and> tasks_id_seq (snd (put_tasks_id p i body d)) = tasks_id_seq d
    \<and> is_completed (r\<lparr>is_completed := v\<rparr>) = v"
  using put_tasks_id_found_mset [where body = body, OF assms] by simp

theorem put_tasks_id_sets_flag_witness:
  "reachable sample_pool \<and> id_in sample_pool ''1'' = Some 1 \<and> task_a \<in> set (tasks sample_db) \<and>
   task_id task_a = 1 \<and> distinct (map task_id (tasks sample_db)) \<and>
   fst (put_tasks_id sample_pool ''1'' done_body sample_db) =
     \<lparr>status = 200, payload = Row (task_a\<lparr>is_completed := Some True\<rparr>)\<rparr> \<and>
   mset (tasks (snd (put_tasks_id sample_pool ''1'' done_body sample_db))) =
     mset [task_a\<lparr>is_completed := Some True\<rparr>, task_b]"
proof -
  have a: "reachable sample_pool" by (simp add: sample_pool_def)
  have b: "id_in sample_pool ''1'' = Some 1" by (simp add: sample_defs)
  have c: "param (is_completed_in sample_pool) (done_body ''is_completed'') = Some (Some True)"
    by (simp add: sample_defs done_body_def)
  have e: "task_a \<in> set (tasks sample_db)" by (simp add: sample_db_def)
  have f: "task_id task_a = 1" by (simp add: task_a_def)
  have g: "distinct (map task_id (tasks sample_db))" by (simp add: sample_defs)
  have h: "mset (tasks sample_db) - {#task_a#} = {#task_b#}" by (simp add: sample_db_def)
  show ?thesis
    using put_tasks_id_sets_flag [where body = done_body, OF a b c e f g] a b e f g h
    by simp
qed

text \<open>
  The update does not toggle: asked for false on a task that is not completed, it answers
  with the row as it was, and the table holds that row with the flag still false.
\<close>

theorem put_tasks_id_same_flag_kept:
  "task_a \<in> set (tasks sample_db) \<and> is_completed task_a = Some False \<and>
   id_in sample_pool ''1'' = Some (task_id task_a) \<and>
   fst (put_tasks_id sample_pool ''1'' undone_body sample_db) =
     \<lparr>status = 200, payload = Row task_a\<rparr> \<and>
   task_a \<in> set (tasks (snd (put_tasks_id sample_pool ''1'' undone_body sample_db)))"
  by (simp add: put_tasks_id_def update_task_def sample_defs undone_body_def)

text \<open>
  Claim C4, amended. For every \<^verbatim>\<open>PUT /tasks/:id\<close> request where a row matches
  \<^verbatim>\<open>:id\<close> and the body supplies the negation of that row's previous
  \<^verbatim>\<open>is_completed\<close>, the resulting flag of that row is the negation of the previous
  one, and the response carries the updated row.
\<close>

theorem put_tasks_id_negates_when_asked:
  assumes "reachable p" and "id_in p i = Some k"
    and "r \<in> set (tasks d)" and "task_id r = k" and "distinct (map task_id (tasks d))"
    and "is_completed r = Some b"
    and "param (is_completed_in p) (body ''is_completed'') = Some (Some (\<not> b))"
  shows "fst (put_tasks_id p i body d) =
           \<lparr>status = 200, payload = Row (r\<lparr>is_completed := Some (\<not> b)\<rparr>)\<rparr>
    \<and> mset (tasks (snd (put_tasks_id p i body d))) =
           add_mset (r\<lparr>is_completed := Some (\<not> b)\<rparr>) (mset (tasks d) - {#r#})
    \<and> is_completed (r\<lparr>is_completed := Some (\<not> b)\<rparr>) = Some (\<not> b)
    \<and> is_completed (r\<lparr>is_completed := Some (\<not> b)\<rparr>) \<noteq> is_completed r"
  using put_tasks_id_found_mset [where body = body, OF assms(1,2,7,3,4,5)] assms(6) by simp

theorem put_tasks_id_negates_when_asked_witness:
  "is_completed task_a = Some False \<and> task_a \<in> set (tasks sample_db) \<and>
   fst (put_tasks_id sample_pool ''1'' done_body sample_db) =
     \<lparr>status = 200, payload = Row (task_a\<lparr>is_completed := Some True\<rparr>)\<rparr> \<and>
   mset (tasks (snd (put_tasks_id sample_pool ''1'' done_body sample_db))) =
     mset [task_a\<lparr>is_completed := Some True\<rparr>, task_b] \<and>
   is_completed (task_a\<lparr>is_completed := Some True\<rparr>) = Some True"
proof -
  have a: "reachable sample_pool" by (simp add: sample_pool_def)
  have b: "id_in sample_pool ''1'' = Some 1" by (simp add: sample_defs)
  have c: "param (is_completed_in sample_pool) (done_body ''is_completed'') = Some (Some (\<not> False))"
    by (simp add: sample_defs done_body_def)
  have e: "task_a \<in> set (tasks sample_db)" by (simp add: sample_db_def)
  have f: "task_id task_a = 1" by (simp add: task_a_def)
  have g: "distinct (map task_id (tasks sample_db))" by (simp add: sample_defs)
  have h: "is_completed task_a = Some False" by (simp add: task_a_def)
  have k: "mset (tasks sample_db) - {#task_a#} = {#task_b#}" by (simp add: sample_db_def)
  show ?thesis
    using put_tasks_id_negates_when_asked [where body = done_body, OF a b e f g h c] e h k
    by simp
qed

text \<open>
  No row matches, and the answer is 500, not 404: the server does not read
  \<^verbatim>\<open>abc\<close> as an id, nor the string \<^verbatim>\<open>maybe\<close> as a boolean.
\<close>

theorem unknown_id_unread_fails:
  "id_in sample_pool ''abc'' = None \<and>
   delete_tasks_id sample_pool ''abc'' sample_db =
     (\<lparr>status = 500, payload = Error_body ''Error al eliminar la tarea''\<rparr>, sample_db) \<and>
   id_in sample_pool ''9'' = Some 9 \<and> 9 \<notin> task_id ` set (tasks sample_db) \<and>
   put_tasks_id sample_pool ''9'' maybe_body sample_db =
     (\<lparr>status = 500, payload = Error_body ''Error al actualizar la tarea''\<rparr>, sample_db)"
  by (simp add: delete_tasks_id_def delete_task_def put_tasks_id_def update_task_def
      sample_defs maybe_body_def)

text \<open>
  Claim C5, amended. For every \<^verbatim>\<open>PUT /tasks/:id\<close> or \<^verbatim>\<open>DELETE /tasks/:id\<close>
  request where no row matches \<^verbatim>\<open>:id\<close>, the database is left exactly as it was; the
  handler responds 404 when the database executes the statement (it is reachable, reads
  \<^verbatim>\<open>:id\<close> as an id and, for PUT, reads the \<^verbatim>\<open>is_completed\<close> parameter), and 500
  when it does not.
\<close>

theorem unknown_id_not_found:
  assumes "\<forall>k. id_in p i = Some k \<longrightarrow> k \<notin> task_id ` set (tasks d)"
  shows "snd (delete_tasks_id p i d) = d \<and> snd (put_tasks_id p i body d) = d
    \<and> fst (delete_tasks_id p i d) =
        (if reachable p \<and> id_in p i \<noteq> None
         then \<lparr>status = 404, payload = Error_body ''Tarea no encontrada''\<rparr>
         else \<lparr>status = 500, payload = Error_body ''Error al eliminar la tarea''\<rparr>)
    \<and> fst (put_tasks_id p i body d) =
        (if reachable p \<and> id_in p i \<noteq> None
            \<and> param (is_completed_in p) (body ''is_completed'') \<noteq> None
         then \<lparr>status = 404, payload = Error_body ''Tarea no encontrada''\<rparr>
         else \<lparr>status = 500, payload = Error_body ''Error al actualizar la tarea''\<rparr>)"
proof -
  have del: "delete_tasks_id p i d =
      (if reachable p \<and> id_in p i \<noteq> None
       then \<lparr>status = 404, payload = Error_body ''Tarea no encontrada''\<rparr>
       else \<lparr>status = 500, payload = Error_body ''Error al eliminar la tarea''\<rparr>, d)"
  proof (cases "reachable p \<and> id_in p i \<noteq> None")
    case True
    then obtain k where k: "id_in p i = Some k" by auto
    with assms have "k \<notin> task_id ` set (tasks d)" by simp
    with True k show ?thesis by (simp add: delete_tasks_id_missing)
  next
    case False
    then show ?thesis by (simp add: delete_tasks_id_failed)
  qed
  have put: "put_tasks_id p i body d =
      (if reachable p \<and> id_in p i \<noteq> None
          \<and> param (is_completed_in p) (body ''is_completed'') \<noteq> None
       then \<lparr>status = 404, payload = Error_body ''Tarea no encontrada''\<rparr>
       else \<lparr>status = 500, payload = Error_body ''Error al actualizar la tarea''\<rparr>, d)"
  proof (cases "reachable p \<and> id_in p i \<noteq> None
      \<and> param (is_completed_in p) (body ''is_completed'') \<noteq> None")
    case True
    then obtain k v where k: "id_in p i = Some k"
      and v: "param (is_completed_in p) (body ''is_completed'') = Some v" by auto
    with assms have "k \<notin> task_id ` set (tasks d)" by simp
    with True k v show ?thesis
      using put_tasks_id_missing [where body = body, of p i k v d] by simp
  next
    case False
    then show ?thesis using put_tasks_id_failed [where body = body, of p i d] by simp
  qed
  from del put show ?thesis by simp
qed

theorem unknown_id_not_found_witness:
  "reachable sample_pool \<and> id_in sample_pool ''9'' = Some 9 \<and>
   9 \<notin> task_id ` set (tasks sample_db) \<and>
   delete_tasks_id sample_pool ''9'' sample_db =
     (\<lparr>status = 404, payload = Error_body ''Tarea no encontrada''\<rparr>, sample_db) \<and>
   put_tasks_id sample_pool ''9'' done_body sample_db =
     (\<lparr>status = 404, payload = Error_body ''Tarea no encontrada''\<rparr>, sample_db) \<and>
   put_tasks_id sample_pool ''9'' maybe_body sample_db =
     (\<lparr>status = 500, payload = Error_body ''Error al actualizar la tarea''\<rparr>, sample_db)"
proof -
  have a: "reachable sample_pool" by (simp add: sample_pool_def)
  have b: "id_in sample_pool ''9'' = Some 9" by (simp add: sample_defs)
  have c: "9 \<notin> task_id ` set (tasks sample_db)" by (simp add: sample_defs)
  have e: "param (is_completed_in sample_pool) (done_body ''is_completed'') \<noteq> None"
    by (simp add: sample_defs done_body_def)
  have f: "param (is_completed_in sample_pool) (maybe_body ''is_completed'') = None"
    by (simp add: sample_defs maybe_body_def)
  from b c have none: "\<forall>k. id_in sample_pool ''9'' = Some k \<longrightarrow> k \<notin> task_id ` set (tasks sample_db)"
    by simp
  have "delete_tasks_id sample_pool ''9'' sample_db =
      (fst (delete_tasks_id sample_pool ''9'' sample_db),
       snd (delete_tasks_id sample_pool ''9'' sample_db))"
    and "put_tasks_id sample_pool ''9'' done_body sample_db =
      (fst (put_tasks_id sample_pool ''9'' done_body sample_db),
       snd (put_tasks_id sample_pool ''9'' done_body sample_db))"
    and "put_tasks_id sample_pool ''9'' maybe_body sample_db =
      (fst (put_tasks_id sample_pool ''9'' maybe_body sample_db),
       snd (put_tasks_id sample_pool ''9'' maybe_body sample_db))"
    by simp_all
  then show ?thesis
    using unknown_id_not_found [OF none, of done_body]
      unknown_id_not_found [OF none, of maybe_body] a b c e f
    by simp
qed

text \<open>
  Claim C6. For every \<^verbatim>\<open>DELETE /tasks/:id\<close> request where a row matches
  \<^verbatim>\<open>:id\<close> (ids identify rows) and the database executes the DELETE, the handler
  removes exactly that row, responds 200 with the confirmation message and the deleted
  row, and a following \<^verbatim>\<open>GET /tasks\<close> lists the other rows and not that one.
\<close>

theorem delete_tasks_id_removes:
  assumes "reachable p" and "id_in p i = Some k"
    and "r \<in> set (tasks d)" and "task_id r = k" and "distinct (map task_id (tasks d))"
  shows "delete_tasks_id p i d =
           (\<lparr>status = 200, payload = Message_task ''Tarea eliminada correctamente'' r\<rparr>,
            d\<lparr>tasks := remove1 r (tasks d)\<rparr>)
    \<and> set (remove1 r (tasks d)) = set (tasks d) - {r}
    \<and> (reachable p' \<longrightarrow>
         (\<exists>rs. fst (get_tasks p' (snd (delete_tasks_id p i d)))
                 = \<lparr>status = 200, payload = Rows rs\<rparr>
               \<and> r \<notin> set rs \<and> k \<notin> task_id ` set rs \<and> set rs = set (tasks d) - {r}))"
proof -
  from assms(5) have dist: "distinct (tasks d)" by (simp add: distinct_map)
  then have rest: "set (remove1 r (tasks d)) = set (tasks d) - {r}" by simp
  have "k \<notin> task_id ` set (remove1 r (tasks d))"
  proof
    assume "k \<in> task_id ` set (remove1 r (tasks d))"
    then obtain x where x: "x \<in> set (tasks d)" "x \<noteq> r" "task_id x = k"
      using rest by auto
    with assms(3,4,5) show False by (auto simp: distinct_map inj_on_def)
  qed
  with rest show ?thesis
    using delete_tasks_id_found [OF assms] by (auto simp: get_tasks_reachable)
qed

theorem delete_tasks_id_removes_witness:
  "reachable sample_pool \<and> id_in sample_pool ''2'' = Some 2 \<and> task_b \<in> set (tasks sample_db) \<and>
   task_id task_b = 2 \<and> distinct (map task_id (tasks sample_db)) \<and>
   delete_tasks_id sample_pool ''2'' sample_db =
     (\<lparr>status = 200, payload = Message_task ''Tarea eliminada correctamente'' task_b\<rparr>,
      \<lparr>tasks = [task_a], tasks_id_seq = 3\<rparr>) \<and>
   fst (get_tasks sample_pool (snd (delete_tasks_id sample_pool ''2'' sample_db))) =
     \<lparr>status = 200, payload = Rows [task_a]\<rparr>"
proof -
  have a: "reachable sample_pool" by (simp add: sample_pool_def)
  have b: "id_in sample_pool ''2'' = Some 2" by (simp add: sample_defs)
  have e: "task_b \<in> set (tasks sample_db)" by (simp add: sample_db_def)
  have f: "task_id task_b = 2" by (simp add: task_b_def)
  have g: "distinct (map task_id (tasks sample_db))" by (simp add: sample_defs)
  have h: "task_a \<noteq> task_b" by (simp add: sample_defs)
  from delete_tasks_id_removes [OF a b e f g, of sample_pool]
  have del: "delete_tasks_id sample_pool ''2'' sample_db =
     (\<lparr>status = 200, payload = Message_task ''Tarea eliminada correctamente'' task_b\<rparr>,
      sample_db\<lparr>tasks := remove1 task_b (tasks sample_db)\<rparr>)"
    by simp
  have "sample_db\<lparr>tasks := remove1 task_b (tasks sample_db)\<rparr> = \<lparr>tasks = [task_a], tasks_id_seq = 3\<rparr>"
    using h by (simp add: sample_db_def)
  with del a b e f g show ?thesis by (simp add: get_tasks_reachable)
qed

section \<open>Sequences of creates and deletes\<close>

lemma post_tasks_well_keyed:
  assumes "well_keyed d" and "post_tasks p body d = (res, d')"
  shows "well_keyed d'" and "tasks_id_seq d \<le> tasks_id_seq d'"
proof -
  from post_tasks_cases [OF assms(2)]
  have "well_keyed d' \<and> tasks_id_seq d \<le> tasks_id_seq d'"
  proof (elim disjE exE conjE)
    assume "d' = d"
    with assms(1) show ?thesis by simp
  next
    fix t de u
    assume "d' = d\<lparr>tasks := tasks d @ [\<lparr>task_id = tasks_id_seq d, title = t, description = de,
        user_id = u, is_completed = Some False\<rparr>], tasks_id_seq := tasks_id_seq d + 1\<rparr>"
    with assms(1) show ?thesis
      by (fastforce simp: well_keyed_def list_all_iff)
  qed
  then show "well_keyed d'" and "tasks_id_seq d \<le> tasks_id_seq d'" by simp_all
qed

lemma delete_tasks_id_well_keyed:
  assumes "well_keyed d" and "delete_tasks_id p i d = (res, d')"
  shows "well_keyed d'" and "tasks_id_seq d' = tasks_id_seq d"
proof -
  from delete_tasks_id_cases [OF assms(2)]
  have "well_keyed d' \<and> tasks_id_seq d' = tasks_id_seq d"
  proof (elim disjE exE conjE)
    assume "d' = d"
    with assms(1) show ?thesis by simp
  next
    fix k r
    assume "d' = d\<lparr>tasks := filter (\<lambda>x. task_id x \<noteq> k) (tasks d)\<rparr>"
    with assms(1) show ?thesis
      by (simp add: well_keyed_def list_all_iff distinct_map_filter)
  qed
  then show "well_keyed d'" and "tasks_id_seq d' = tasks_id_seq d" by simp_all
qed

lemma created_skip:
  "status res \<noteq> 201 \<Longrightarrow> created ((q, res) # xs) = created xs"
  by (cases q) simp_all

lemma deleted_skip:
  "status res \<noteq> 200 \<Longrightarrow> deleted ((q, res) # xs) = deleted xs"
  by (cases q) simp_all

lemma serve_live:
  assumes "well_keyed d" and "\<forall>(p, q) \<in> set qs. is_create_or_delete q"
    and "serve qs d = (trace, d')"
  shows "well_keyed d' \<and> tasks_id_seq d \<le> tasks_id_seq d'
       \<and> (\<forall>r \<in> set (created trace). tasks_id_seq d \<le> task_id r)
       \<and> set (tasks d') = (set (tasks d) \<union> set (created trace)) - set (deleted trace)"
  using assms
proof (induction qs arbitrary: d trace d')
  case Nil
  then show ?case by simp
next
  case (Cons pq qs)
  obtain p q where pq: "pq = (p, q)" by (cases pq)
  obtain res d1 where step: "handle p q d = (res, d1)" by (cases "handle p q d")
  obtain rest d2 where tail: "serve qs d1 = (rest, d2)" by (cases "serve qs d1")
  from Cons.prems(3) pq step tail have trace: "trace = (q, res) # rest" and d2: "d' = d2"
    by simp_all
  from Cons.prems(2) pq have kind: "is_create_or_delete q"
    and kinds: "\<forall>(p, q) \<in> set qs. is_create_or_delete q" by simp_all
  show ?case
  proof (cases q)
    case Get_tasks
    with kind show ?thesis by (simp add: is_create_or_delete_def)
  next
    case (Put_tasks_id i body)
    with kind show ?thesis by (simp add: is_create_or_delete_def)
  next
    case (Post_tasks body)
    with step have post: "post_tasks p body d = (res, d1)" by simp
    from post_tasks_well_keyed [OF Cons.prems(1) post]
    have wk1: "well_keyed d1" and seq1: "tasks_id_seq d \<le> tasks_id_seq d1" by simp_all
    from Cons.IH [OF wk1 kinds tail]
    have ih: "well_keyed d2" "tasks_id_seq d1 \<le> tasks_id_seq d2"
      "\<forall>r \<in> set (created rest). tasks_id_seq d1 \<le> task_id r"
      "set (tasks d2) = (set (tasks d1) \<union> set (created rest)) - set (deleted rest)"
      by simp_all
    have del: "deleted trace = deleted rest" using trace Post_tasks by simp
    from post_tasks_cases [OF post] show ?thesis
    proof (elim disjE exE conjE)
      assume same: "d1 = d" and "status res \<noteq> 201"
      then have "created trace = created rest" using trace by (simp add: created_skip)
      with ih same del d2 show ?thesis by simp
    next
      fix t de u
      assume "status res = 201"
        and row: "payload res = Row \<lparr>task_id = tasks_id_seq d, title = t, description = de,
          user_id = u, is_completed = Some False\<rparr>"
        and d1: "d1 = d\<lparr>tasks := tasks d @ [\<lparr>task_id = tasks_id_seq d, title = t,
          description = de, user_id = u, is_completed = Some False\<rparr>],
          tasks_id_seq := tasks_id_seq d + 1\<rparr>"
      then have cr: "created trace = \<lparr>task_id = tasks_id_seq d, title = t, description = de,
          user_id = u, is_completed = Some False\<rparr> # created rest"
        using trace Post_tasks by simp
      from d1 have "set (tasks d1) = insert \<lparr>task_id = tasks_id_seq d, title = t,
          description = de, user_id = u, is_completed = Some False\<rparr> (set (tasks d))"
        by simp
      moreover from ih(3) seq1 have "\<forall>r \<in> set (created rest). tasks_id_seq d \<le> task_id r"
        by auto
      ultimately show ?thesis using ih cr del d2 seq1 by auto
    qed
  next
    case (Delete_tasks_id i)
    with step have delete: "delete_tasks_id p i d = (res, d1)" by simp
    from delete_tasks_id_well_keyed [OF Cons.prems(1) delete]
    have wk1: "well_keyed d1" and seq1: "tasks_id_seq d1 = tasks_id_seq d" by simp_all
    from Cons.IH [OF wk1 kinds tail]
    have ih: "well_keyed d2" "tasks_id_seq d1 \<le> tasks_id_seq d2"
      "\<forall>r \<in> set (created rest). tasks_id_seq d1 \<le> task_id r"
      "set (tasks d2) = (set (tasks d1) \<union> set (created rest)) - set (deleted rest)"
      by simp_all
    have cr: "created trace = created rest" using trace Delete_tasks_id by simp
    from delete_tasks_id_cases [OF delete] show ?thesis
    proof (elim disjE exE conjE)
      assume same: "d1 = d" and "status res \<noteq> 200"
      then have "deleted trace = deleted rest" using trace by (simp add: deleted_skip)
      with ih same cr d2 show ?thesis by simp
    next
      fix k r
      assume "status res = 200"
        and "payload res = Message_task ''Tarea eliminada correctamente'' r"
        and r: "r \<in> set (tasks d)" "task_id r = k"
        and d1: "d1 = d\<lparr>tasks := filter (\<lambda>x. task_id x \<noteq> k) (tasks d)\<rparr>"
      then have del: "deleted trace = r # deleted rest"
        using trace Delete_tasks_id by simp
      from Cons.prems(1) have dist: "distinct (map task_id (tasks d))"
        and below: "task_id r < tasks_id_seq d"
        using r(1) by (simp_all add: well_keyed_def list_all_iff)
      from dist r have "filter (\<lambda>x. task_id x \<noteq> k) (tasks d) = remove1 r (tasks d)"
        using filter_others [of "tasks d" r] by simp
      moreover from dist have "distinct (tasks d)" by (simp add: distinct_map)
      ultimately have rows: "set (tasks d1) = set (tasks d) - {r}" using d1 by simp
      from ih(3) seq1 below have "r \<notin> set (created rest)" by auto
      with rows ih(4) have "set (tasks d2) =
          (set (tasks d) \<union> set (created rest)) - set (r # deleted rest)"
        by auto
      with ih cr del d2 seq1 show ?thesis by simp
    qed
  qed
qed

text \<open>
  Claim C7. For every state of the tasks table, \<^verbatim>\<open>GET /tasks\<close> (the database being
  reachable) responds with exactly the rows of the table, unfiltered and in storage order;
  hence after any sequence of creates and deletes on an empty table it returns exactly
  the created tasks that were not deleted, each once.
\<close>

theorem get_tasks_lists_live_tasks:
  "(reachable p \<longrightarrow> get_tasks p d = (\<lparr>status = 200, payload = Rows (tasks d)\<rparr>, d)) \<and>
   (reachable p \<and> (\<forall>(p', q) \<in> set qs. is_create_or_delete q) \<and>
    serve qs \<lparr>tasks = [], tasks_id_seq = n\<rparr> = (trace, d') \<longrightarrow>
      get_tasks p d' = (\<lparr>status = 200, payload = Rows (tasks d')\<rparr>, d') \<and>
      distinct (tasks d') \<and>
      set (tasks d') = set (created trace) - set (deleted trace))"
proof (intro conjI impI)
  assume "reachable p"
  then show "get_tasks p d = (\<lparr>status = 200, payload = Rows (tasks d)\<rparr>, d)"
    by (rule get_tasks_reachable)
next
  assume run: "reachable p \<and> (\<forall>(p', q) \<in> set qs. is_create_or_delete q) \<and>
    serve qs \<lparr>tasks = [], tasks_id_seq = n\<rparr> = (trace, d')"
  then show "get_tasks p d' = (\<lparr>status = 200, payload = Rows (tasks d')\<rparr>, d')"
    by (simp add: get_tasks_reachable)
  have "well_keyed \<lparr>tasks = [], tasks_id_seq = n\<rparr>" by (simp add: well_keyed_def)
  from serve_live [OF this] run
  have live: "well_keyed d' \<and>
      set (tasks d') = (set (tasks \<lparr>tasks = [], tasks_id_seq = n\<rparr>) \<union> set (created trace))
        - set (deleted trace)"
    by blast
  then show "distinct (tasks d')" by (simp add: well_keyed_def distinct_map)
  from live show "set (tasks d') = set (created trace) - set (deleted trace)" by simp
qed

theorem get_tasks_lists_live_tasks_witness:
  "reachable sample_pool \<and>
   tasks (snd (serve sample_requests empty_db)) =
     [\<lparr>task_id = 2, title = Some ''write tests'', description = None, user_id = Some 7,
       is_completed = Some False\<rparr>] \<and>
   get_tasks sample_pool (snd (serve sample_requests empty_db)) =
     (\<lparr>status = 200, payload = Rows (tasks (snd (serve sample_requests empty_db)))\<rparr>,
      snd (serve sample_requests empty_db)) \<and>
   set (tasks (snd (serve sample_requests empty_db))) =
     set (created (fst (serve sample_requests empty_db)))
       - set (deleted (fst (serve sample_requests empty_db)))"
proof -
  have a: "reachable sample_pool" by (simp add: sample_pool_def)
  have b: "\<forall>(p', q) \<in> set sample_requests. is_create_or_delete q"
    by (simp add: sample_requests_def is_create_or_delete_def)
  have c: "serve sample_requests \<lparr>tasks = [], tasks_id_seq = 1\<rparr> =
      (fst (serve sample_requests empty_db), snd (serve sample_requests empty_db))"
    by (simp add: empty_db_def)
  have e: "tasks (snd (serve sample_requests empty_db)) =
     [\<lparr>task_id = 2, title = Some ''write tests'', description = None, user_id = Some 7,
       is_completed = Some False\<rparr>]"
    by (simp add: sample_requests_def sample_defs full_body_def blank_title_body_def
        post_tasks_def insert_task_def delete_tasks_id_def delete_task_def Let_def)
  from get_tasks_lists_live_tasks [of sample_pool empty_db sample_requests 1
      "fst (serve sample_requests empty_db)" "snd (serve sample_requests empty_db)"] a b c
  have "get_tasks sample_pool (snd (serve sample_requests empty_db)) =
     (\<lparr>status = 200, payload = Rows (tasks (snd (serve sample_requests empty_db)))\<rparr>,
      snd (serve sample_requests empty_db)) \<and>
   set (tasks (snd (serve sample_requests empty_db))) =
     set (created (fst (serve sample_requests empty_db)))
       - set (deleted (fst (serve sample_requests empty_db)))"
    by blast
  with a e show ?thesis by blast
qed

section \<open>The invariant of the data model\<close>

lemma persisted_ok_flag: "persisted_ok (r\<lparr>is_completed := v\<rparr>) = persisted_ok r"
  by (simp add: persisted_ok_def)

lemma post_tasks_persisted_ok:
  assumes "keeps_title p" and "list_all persisted_ok (tasks d)"
  shows "list_all persisted_ok (tasks (snd (post_tasks p body d)))"
proof -
  obtain res d' where post: "post_tasks p body d = (res, d')"
    by (cases "post_tasks p body d")
  from post_tasks_cases [OF post] have "list_all persisted_ok (tasks d')"
  proof (elim disjE exE conjE)
    assume "d' = d"
    with assms(2) show ?thesis by simp
  next
    fix t de u
    assume tt: "truthy (body ''title'')" and tu: "truthy (body ''user_id'')"
      and t: "param (title_in p) (body ''title'') = Some t"
      and u: "param (user_id_in p) (body ''user_id'') = Some u"
      and d': "d' = d\<lparr>tasks := tasks d @ [\<lparr>task_id = tasks_id_seq d, title = t,
          description = de, user_id = u, is_completed = Some False\<rparr>],
          tasks_id_seq := tasks_id_seq d + 1\<rparr>"
    from truthy_param [OF tt, of "title_in p"] obtain x
      where x: "body ''title'' = Some x" "param (title_in p) (body ''title'') = map_option Some (title_in p x)"
      by blast
    with tt assms(1) have "title_in p x \<noteq> Some []" by (simp add: keeps_title_def)
    with x t have "case t of None \<Rightarrow> False | Some s \<Rightarrow> s \<noteq> []"
      by (cases "title_in p x") auto
    moreover from tu u have "u \<noteq> None" by (rule param_truthy_not_null)
    ultimately show ?thesis using d' assms(2) by (simp add: persisted_ok_def)
  qed
  with post show ?thesis by simp
qed

lemma put_tasks_id_rows:
  "tasks (snd (put_tasks_id p i body d)) = tasks d \<or>
   (\<exists>k v. tasks (snd (put_tasks_id p i body d)) =
      filter (\<lambda>r. task_id r \<noteq> k) (tasks d)
        @ map (\<lambda>r. r\<lparr>is_completed := v\<rparr>) (filter (\<lambda>r. task_id r = k) (tasks d)))"
proof (cases "reachable p \<and> id_in p i \<noteq> None
    \<and> param (is_completed_in p) (body ''is_completed'') \<noteq> None")
  case False
  then show ?thesis using put_tasks_id_failed [where body = body, of p i d] by simp
next
  case True
  then obtain k v where "id_in p i = Some k"
    and "param (is_completed_in p) (body ''is_completed'') = Some v" by auto
  with True have "tasks (snd (put_tasks_id p i body d)) =
      filter (\<lambda>r. task_id r \<noteq> k) (tasks d)
        @ map (\<lambda>r. r\<lparr>is_completed := v\<rparr>) (filter (\<lambda>r. task_id r = k) (tasks d))"
    by (simp add: put_tasks_id_def update_task_def split: list.splits)
  then show ?thesis by blast
qed

lemma delete_tasks_id_rows:
  "tasks (snd (delete_tasks_id p i d)) = tasks d \<or>
   (\<exists>k. tasks (snd (delete_tasks_id p i d)) = filter (\<lambda>r. task_id r \<noteq> k) (tasks d))"
  by (auto simp: delete_tasks_id_def delete_task_def split: option.splits list.splits)

lemma get_tasks_rows: "snd (get_tasks p d) = d"
  by (simp add: get_tasks_def select_tasks_def)

lemma handle_persisted_ok:
  assumes "keeps_title p" and "list_all persisted_ok (tasks d)"
  shows "list_all persisted_ok (tasks (snd (handle p q d)))"
proof (cases q)
  case Get_tasks
  with assms(2) show ?thesis by (simp add: get_tasks_rows)
next
  case (Post_tasks body)
  with assms show ?thesis by (simp add: post_tasks_persisted_ok)
next
  case (Put_tasks_id i body)
  from put_tasks_id_rows [of p i body d] assms(2)
  have "list_all persisted_ok (tasks (snd (put_tasks_id p i body d)))"
    by (auto simp: list_all_iff persisted_ok_flag)
  with Put_tasks_id show ?thesis by simp
next
  case (Delete_tasks_id i)
  from delete_tasks_id_rows [of p i d] assms(2)
  have "list_all persisted_ok (tasks (snd (delete_tasks_id p i d)))"
    by (auto simp: list_all_iff)
  with Delete_tasks_id show ?thesis by simp
qed

lemma serve_step: "snd (serve ((p, q) # qs) d) = snd (serve qs (snd (handle p q d)))"
  by (simp split: prod.splits)

lemma serve_persisted_ok:
  assumes "\<forall>(p, q) \<in> set qs. keeps_title p" and "list_all persisted_ok (tasks d)"
  shows "list_all persisted_ok (tasks (snd (serve qs d)))"
  using assms
proof (induction qs arbitrary: d)
  case Nil
  then show ?case by simp
next
  case (Cons pq qs)
  obtain p q where pq: "pq = (p, q)" by (cases pq)
  with Cons.prems have "keeps_title p" and rest: "\<forall>(p, q) \<in> set qs. keeps_title p"
    by simp_all
  then have "list_all persisted_ok (tasks (snd (handle p q d)))"
    using Cons.prems(2) by (intro handle_persisted_ok)
  from Cons.IH [OF rest this] pq show ?case
    by (simp only: serve_step)
qed

lemma keeps_title_sample_pool: "keeps_title sample_pool"
  unfolding keeps_title_def
proof (intro allI impI)
  fix v
  assume "truthy (Some v)"
  then show "title_in sample_pool v \<noteq> Some []"
    by (cases v) (simp_all add: sample_pool_def text_in_def)
qed

text \<open>
  Claim C8. Every row ever present in the tasks table has a non-empty title and a
  user_id: from any table in which every row has them, each request, and so each
  sequence of requests, leaves a table in which every row has them. The POST guard
  admits only a truthy title and user_id (and the database does not read a truthy value
  as the empty text), PUT changes only the flag and DELETE only removes rows.
\<close>

theorem persisted_ok_preserved:
  "(keeps_title p \<and> list_all persisted_ok (tasks d) \<longrightarrow>
      list_all persisted_ok (tasks (snd (handle p q d)))) \<and>
   ((\<forall>(p', q') \<in> set qs. keeps_title p') \<and> list_all persisted_ok (tasks d) \<longrightarrow>
      list_all persisted_ok (tasks (snd (serve qs d)))) \<and>
   ((\<forall>(p', q') \<in> set qs. keeps_title p') \<longrightarrow>
      list_all persisted_ok (tasks (snd (serve qs \<lparr>tasks = [], tasks_id_seq = n\<rparr>))))"
proof (intro conjI impI)
  assume "keeps_title p \<and> list_all persisted_ok (tasks d)"
  then show "list_all persisted_ok (tasks (snd (handle p q d)))"
    by (simp add: handle_persisted_ok)
next
  assume "(\<forall>(p', q') \<in> set qs. keeps_title p') \<and> list_all persisted_ok (tasks d)"
  then show "list_all persisted_ok (tasks (snd (serve qs d)))"
    by (intro serve_persisted_ok) simp_all
next
  assume "\<forall>(p', q') \<in> set qs. keeps_title p'"
  then show "list_all persisted_ok (tasks (snd (serve qs \<lparr>tasks = [], tasks_id_seq = n\<rparr>)))"
    by (intro serve_persisted_ok) simp_all
qed

theorem persisted_ok_preserved_witness:
  "list_all persisted_ok (tasks sample_db) \<and>
   tasks (snd (handle sample_pool (Post_tasks full_body) sample_db)) =
     [task_a, task_b,
      \<lparr>task_id = 3, title = Some ''write tests'', description = None, user_id = Some 7,
       is_completed = Some False\<rparr>] \<and>
   list_all persisted_ok (tasks (snd (handle sample_pool (Post_tasks full_body) sample_db))) \<and>
   list_all persisted_ok
     (tasks (snd (serve [(sample_pool, Post_tasks full_body),
                         (sample_pool, Put_tasks_id ''3'' done_body)] sample_db))) \<and>
   list_all persisted_ok
     (tasks (snd (serve [(sample_pool, Post_tasks full_body),
                         (sample_pool, Put_tasks_id ''3'' done_body)]
                    \<lparr>tasks = [], tasks_id_seq = 1\<rparr>)))"
proof -
  have a: "keeps_title sample_pool" by (rule keeps_title_sample_pool)
  have b: "list_all persisted_ok (tasks sample_db)"
    by (simp add: sample_defs persisted_ok_def)
  have c: "\<forall>(p', q') \<in> set [(sample_pool, Post_tasks full_body),
      (sample_pool, Put_tasks_id ''3'' done_body)]. keeps_title p'"
    using a by simp
  have e: "tasks (snd (handle sample_pool (Post_tasks full_body) sample_db)) =
     [task_a, task_b,
      \<lparr>task_id = 3, title = Some ''write tests'', description = None, user_id = Some 7,
       is_completed = Some False\<rparr>]"
    by (simp add: post_tasks_def insert_task_def Let_def full_body_def sample_pool_def
        text_in_def integer_in_def sample_db_def)
  show ?thesis
    using persisted_ok_preserved [of sample_pool sample_db "Post_tasks full_body"
        "[(sample_pool, Post_tasks full_body), (sample_pool, Put_tasks_id ''3'' done_body)]" 1]
      a b c e
    by blast
qed

section \<open>What an update leaves alone\<close>

lemma put_tasks_id_cases:
  assumes "put_tasks_id p i body d = (res, d')" and "status res = 200"
  shows "\<exists>k v. id_in p i = Some k
           \<and> param (is_completed_in p) (body ''is_completed'') = Some v
           \<and> d' = d\<lparr>tasks := filter (\<lambda>r. task_id r \<noteq> k) (tasks d)
                               @ map (\<lambda>r. r\<lparr>is_completed := v\<rparr>)
                                   (filter (\<lambda>r. task_id r = k) (tasks d))\<rparr>"
  using assms
  by (auto simp: put_tasks_id_def update_task_def split: if_splits option.splits list.splits)

text \<open>
  Claim C9. For every successful \<^verbatim>\<open>PUT /tasks/:id\<close> (status 200), the only change to
  the tasks table is the \<^verbatim>\<open>is_completed\<close> field of the row matching \<^verbatim>\<open>:id\<close>: the
  rows of the table afterwards are, as a multiset, the rows before with the flag of the
  matching row set. So every row afterwards has the id, title, description and user_id of
  a row before, every row not matching \<^verbatim>\<open>:id\<close> is still there unchanged, and the id
  sequence is unchanged. Nothing is said of the order the rows are stored in.
\<close>

theorem put_tasks_id_frame:
  assumes "put_tasks_id p i body d = (res, d')" and "status res = 200"
  shows "\<exists>k v. id_in p i = Some k
           \<and> param (is_completed_in p) (body ''is_completed'') = Some v
           \<and> tasks_id_seq d' = tasks_id_seq d
           \<and> mset (tasks d') =
               mset (map (\<lambda>r. if task_id r = k then r\<lparr>is_completed := v\<rparr> else r) (tasks d))
           \<and> (\<forall>r' \<in> set (tasks d'). \<exists>r \<in> set (tasks d).
                 r' = (if task_id r = k then r\<lparr>is_completed := v\<rparr> else r)
                 \<and> task_id r' = task_id r \<and> title r' = title r
                 \<and> description r' = description r \<and> user_id r' = user_id r)
           \<and> (\<forall>r \<in> set (tasks d). task_id r \<noteq> k \<longrightarrow> r \<in> set (tasks d'))"
proof -
  from put_tasks_id_cases [OF assms] obtain k v
    where k: "id_in p i = Some k"
      and v: "param (is_completed_in p) (body ''is_completed'') = Some v"
      and d': "d' = d\<lparr>tasks := filter (\<lambda>r. task_id r \<noteq> k) (tasks d)
                               @ map (\<lambda>r. r\<lparr>is_completed := v\<rparr>)
                                   (filter (\<lambda>r. task_id r = k) (tasks d))\<rparr>"
    by blast
  from d' have seq: "tasks_id_seq d' = tasks_id_seq d" by simp
  from d' have rows: "mset (tasks d') =
      mset (map (\<lambda>r. if task_id r = k then r\<lparr>is_completed := v\<rparr> else r) (tasks d))"
    by (simp only: updated_rows_mset [symmetric]) simp
  from d' have old: "\<forall>r' \<in> set (tasks d'). \<exists>r \<in> set (tasks d).
      r' = (if task_id r = k then r\<lparr>is_completed := v\<rparr> else r)
      \<and> task_id r' = task_id r \<and> title r' = title r
      \<and> description r' = description r \<and> user_id r' = user_id r"
    by auto
  from d' have kept: "\<forall>r \<in> set (tasks d). task_id r \<noteq> k \<longrightarrow> r \<in> set (tasks d')"
    by simp
  from k v seq rows old kept show ?thesis by blast
qed

theorem put_tasks_id_frame_witness:
  "fst (put_tasks_id sample_pool ''1'' done_body sample_db) =
     \<lparr>status = 200, payload = Row (task_a\<lparr>is_completed := Some True\<rparr>)\<rparr> \<and>
   tasks_id_seq (snd (put_tasks_id sample_pool ''1'' done_body sample_db)) = tasks_id_seq sample_db \<and>
   mset (tasks (snd (put_tasks_id sample_pool ''1'' done_body sample_db))) =
     mset [task_a\<lparr>is_completed := Some True\<rparr>, task_b] \<and>
   task_b \<in> set (tasks (snd (put_tasks_id sample_pool ''1'' done_body sample_db)))"
proof -
  have a: "fst (put_tasks_id sample_pool ''1'' done_body sample_db) =
     \<lparr>status = 200, payload = Row (task_a\<lparr>is_completed := Some True\<rparr>)\<rparr>"
    by (simp add: put_tasks_id_def update_task_def sample_defs done_body_def)
  have b: "put_tasks_id sample_pool ''1'' done_body sample_db =
      (fst (put_tasks_id sample_pool ''1'' done_body sample_db),
       snd (put_tasks_id sample_pool ''1'' done_body sample_db))"
    by simp
  have c: "status (fst (put_tasks_id sample_pool ''1'' done_body sample_db)) = 200"
    using a by simp
  have e: "id_in sample_pool ''1'' = Some 1" by (simp add: sample_defs)
  have f: "param (is_completed_in sample_pool) (done_body ''is_completed'') = Some (Some True)"
    by (simp add: sample_defs done_body_def)
  have g: "map (\<lambda>r. if task_id r = 1 then r\<lparr>is_completed := Some True\<rparr> else r) (tasks sample_db)
      = [task_a\<lparr>is_completed := Some True\<rparr>, task_b]"
    by (simp add: sample_defs)
  have h: "task_b \<in> set (tasks sample_db)" "task_id task_b \<noteq> 1"
    by (simp_all add: sample_defs)
  from put_tasks_id_frame [OF b c] obtain k v
    where k: "id_in sample_pool ''1'' = Some k"
      and v: "param (is_completed_in sample_pool) (done_body ''is_completed'') = Some v"
      and seq: "tasks_id_seq (snd (put_tasks_id sample_pool ''1'' done_body sample_db))
             = tasks_id_seq sample_db"
      and rows: "mset (tasks (snd (put_tasks_id sample_pool ''1'' done_body sample_db))) =
             mset (map (\<lambda>r. if task_id r = k then r\<lparr>is_completed := v\<rparr> else r) (tasks sample_db))"
      and kept: "\<forall>r \<in> set (tasks sample_db). task_id r \<noteq> k \<longrightarrow>
             r \<in> set (tasks (snd (put_tasks_id sample_pool ''1'' done_body sample_db)))"
    by blast
  from k e have k1: "k = 1" by simp
  from v f have v1: "v = Some True" by simp
  have "mset (tasks (snd (put_tasks_id sample_pool ''1'' done_body sample_db))) =
      mset [task_a\<lparr>is_completed := Some True\<rparr>, task_b]"
    using rows unfolding k1 v1 g .
  moreover from kept h k1
  have "task_b \<in> set (tasks (snd (put_tasks_id sample_pool ''1'' done_body sample_db)))"
    by blast
  ultimately show ?thesis using a seq by blast
qed

section \<open>Falsy fields\<close>

lemma post_tasks_row_ok:
  assumes "keeps_title p" and "payload (fst (post_tasks p body d)) = Row r"
  shows "persisted_ok r"
proof -
  obtain res d' where post: "post_tasks p body d = (res, d')"
    by (cases "post_tasks p body d")
  from post_tasks_cases [OF post] show ?thesis
  proof (elim disjE exE conjE)
    assume "status res \<noteq> 201"
    with post assms(2) show ?thesis
      by (auto simp: post_tasks_def insert_task_def Let_def split: if_splits option.splits)
  next
    fix t de u
    assume tt: "truthy (body ''title'')" and tu: "truthy (body ''user_id'')"
      and t: "param (title_in p) (body ''title'') = Some t"
      and u: "param (user_id_in p) (body ''user_id'') = Some u"
      and row: "payload res = Row \<lparr>task_id = tasks_id_seq d, title = t, description = de,
          user_id = u, is_completed = Some False\<rparr>"
    from truthy_param_reads [OF tt t] obtain x
      where x: "body ''title'' = Some x" "title_in p x = t" "t \<noteq> None" by blast
    with tt assms(1) have "t \<noteq> Some []" by (auto simp: keeps_title_def)
    with x(3) have "case t of None \<Rightarrow> False | Some s \<Rightarrow> s \<noteq> []" by (cases t) auto
    moreover from tu u have "u \<noteq> None" by (rule param_truthy_not_null)
    moreover from row post assms(2)
    have "r = \<lparr>task_id = tasks_id_seq d, title = t, description = de, user_id = u,
        is_completed = Some False\<rparr>"
      by simp
    ultimately show ?thesis by (simp add: persisted_ok_def)
  qed
qed

text \<open>
  A task with user_id 0 is created all the same: the string \<^verbatim>\<open>"0"\<close> is truthy, passes
  the guard, and a server that reads an integer from it stores 0.
\<close>

theorem post_tasks_text_zero_created:
  "zero_text_body ''user_id'' = Some (JStr ''0'') \<and> truthy (zero_text_body ''user_id'') \<and>
   post_tasks lenient_pool zero_text_body sample_db =
     (\<lparr>status = 201,
       payload = Row \<lparr>task_id = 3, title = Some ''write tests'', description = None,
                      user_id = Some 0, is_completed = Some False\<rparr>\<rparr>,
      \<lparr>tasks = [task_a, task_b,
                \<lparr>task_id = 3, title = Some ''write tests'', description = None,
                 user_id = Some 0, is_completed = Some False\<rparr>],
       tasks_id_seq = 4\<rparr>)"
  by (simp add: post_tasks_def insert_task_def Let_def zero_text_body_def lenient_pool_def
      integer_text_in_def sample_defs)

text \<open>
  Claim C10, amended. \<^verbatim>\<open>POST /tasks\<close> responds 400, and leaves the table as it was,
  not only when title or user_id is absent but for every request whose title or user_id
  is present but falsy (the empty string, the number 0); so a request whose title is the
  empty string or whose user_id is the number 0 never creates a task, and every task
  created has a non-empty title and a user_id, as long as the database does not read a
  truthy title as the empty text. A user_id that is truthy, such as the string
  \<^verbatim>\<open>"0"\<close>, passes the guard, and the task is stored with whatever the database reads
  from it.
\<close>

theorem post_tasks_falsy_rejected:
  "(body ''title'' = Some t \<and> body ''user_id'' = Some u \<and>
    (\<not> truthy (Some t) \<or> \<not> truthy (Some u)) \<longrightarrow>
      post_tasks p body d =
        (\<lparr>status = 400, payload = Error_body ''Faltan campos obligatorios''\<rparr>, d)) \<and>
   (body ''title'' = Some (JStr []) \<or> body ''user_id'' = Some (JNum 0) \<longrightarrow>
      post_tasks p body d =
        (\<lparr>status = 400, payload = Error_body ''Faltan campos obligatorios''\<rparr>, d)) \<and>
   (status (fst (post_tasks p body d)) = 201 \<or> snd (post_tasks p body d) \<noteq> d \<longrightarrow>
      body ''title'' \<noteq> Some (JStr []) \<and> body ''user_id'' \<noteq> Some (JNum 0)) \<and>
   (keeps_title p \<and> payload (fst (post_tasks p body d)) = Row r \<longrightarrow> persisted_ok r)"
proof (intro conjI impI)
  assume "body ''title'' = Some t \<and> body ''user_id'' = Some u \<and>
    (\<not> truthy (Some t) \<or> \<not> truthy (Some u))"
  then have "\<not> truthy (body ''title'') \<or> \<not> truthy (body ''user_id'')" by auto
  then show "post_tasks p body d =
      (\<lparr>status = 400, payload = Error_body ''Faltan campos obligatorios''\<rparr>, d)"
    by (rule post_tasks_guard)
next
  assume "body ''title'' = Some (JStr []) \<or> body ''user_id'' = Some (JNum 0)"
  then have "\<not> truthy (body ''title'') \<or> \<not> truthy (body ''user_id'')" by auto
  then show "post_tasks p body d =
      (\<lparr>status = 400, payload = Error_body ''Faltan campos obligatorios''\<rparr>, d)"
    by (rule post_tasks_guard)
next
  assume made: "status (fst (post_tasks p body d)) = 201 \<or> snd (post_tasks p body d) \<noteq> d"
  have "truthy (body ''title'') \<and> truthy (body ''user_id'')"
  proof (rule ccontr)
    assume "\<not> (truthy (body ''title'') \<and> truthy (body ''user_id''))"
    then have "\<not> truthy (body ''title'') \<or> \<not> truthy (body ''user_id'')" by simp
    from post_tasks_guard [OF this, of p d] made show False by simp
  qed
  then show "body ''title'' \<noteq> Some (JStr [])" and "body ''user_id'' \<noteq> Some (JNum 0)"
    by auto
next
  assume "keeps_title p \<and> payload (fst (post_tasks p body d)) = Row r"
  then show "persisted_ok r" by (auto intro: post_tasks_row_ok)
qed

theorem post_tasks_falsy_rejected_witness:
  "zero_user_body ''title'' = Some (JStr ''write tests'') \<and>
   zero_user_body ''user_id'' = Some (JNum 0) \<and> \<not> truthy (Some (JNum 0)) \<and>
   post_tasks sample_pool zero_user_body sample_db =
     (\<lparr>status = 400, payload = Error_body ''Faltan campos obligatorios''\<rparr>, sample_db) \<and>
   post_tasks sample_pool blank_title_body sample_db =
     (\<lparr>status = 400, payload = Error_body ''Faltan campos obligatorios''\<rparr>, sample_db) \<and>
   status (fst (post_tasks sample_pool full_body sample_db)) = 201 \<and>
   full_body ''title'' \<noteq> Some (JStr []) \<and> full_body ''user_id'' \<noteq> Some (JNum 0) \<and>
   payload (fst (post_tasks sample_pool full_body sample_db)) =
     Row \<lparr>task_id = 3, title = Some ''write tests'', description = None, user_id = Some 7,
          is_completed = Some False\<rparr> \<and>
   persisted_ok \<lparr>task_id = 3, title = Some ''write tests'', description = None,
                 user_id = Some 7, is_completed = Some False\<rparr>"
proof -
  have a: "zero_user_body ''title'' = Some (JStr ''write tests'')"
    and b: "zero_user_body ''user_id'' = Some (JNum 0)"
    by (simp_all add: zero_user_body_def)
  have c: "blank_title_body ''title'' = Some (JStr [])" by (simp add: blank_title_body_def)
  have e: "status (fst (post_tasks sample_pool full_body sample_db)) = 201"
    by (simp add: post_tasks_def insert_task_def Let_def full_body_def sample_pool_def
        text_in_def integer_in_def)
  have f: "payload (fst (post_tasks sample_pool full_body sample_db)) =
     Row \<lparr>task_id = 3, title = Some ''write tests'', description = None, user_id = Some 7,
          is_completed = Some False\<rparr>"
    by (simp add: post_tasks_def insert_task_def Let_def full_body_def sample_pool_def
        text_in_def integer_in_def sample_db_def)
  have g: "keeps_title sample_pool" by (rule keeps_title_sample_pool)
  have falsy: "\<not> truthy (Some (JNum 0))" by simp
  from post_tasks_falsy_rejected [of zero_user_body "JStr ''write tests''" "JNum 0"
      sample_pool sample_db task_a] a b falsy
  have zero: "post_tasks sample_pool zero_user_body sample_db =
     (\<lparr>status = 400, payload = Error_body ''Faltan campos obligatorios''\<rparr>, sample_db)"
    by blast
  from post_tasks_falsy_rejected [of blank_title_body JNull JNull sample_pool sample_db task_a] c
  have blank: "post_tasks sample_pool blank_title_body sample_db =
     (\<lparr>status = 400, payload = Error_body ''Faltan campos obligatorios''\<rparr>, sample_db)"
    by blast
  from post_tasks_falsy_rejected [of full_body JNull JNull sample_pool sample_db
      "\<lparr>task_id = 3, title = Some ''write tests'', description = None, user_id = Some 7,
        is_completed = Some False\<rparr>"] e f g
  have made: "full_body ''title'' \<noteq> Some (JStr []) \<and> full_body ''user_id'' \<noteq> Some (JNum 0)"
    and ok: "persisted_ok \<lparr>task_id = 3, title = Some ''write tests'', description = None,
                 user_id = Some 7, is_completed = Some False\<rparr>"
    by blast+
  from a b falsy zero blank e made f ok show ?thesis by blast
qed

section \<open>Ids stay unique\<close>

lemma put_tasks_id_seq: "tasks_id_seq (snd (put_tasks_id p i body d)) = tasks_id_seq d"
  by (simp add: put_tasks_id_def update_task_def split: option.splits list.splits)

lemma well_keyed_ids:
  "well_keyed d \<longleftrightarrow>
     distinct (map task_id (tasks d)) \<and> (\<forall>n \<in> set (map task_id (tasks d)). n < tasks_id_seq d)"
  by (simp add: well_keyed_def list_all_iff)

lemma updated_ids_mset:
  "mset (map task_id (filter (\<lambda>r. task_id r \<noteq> k) xs
                      @ map (\<lambda>r. r\<lparr>is_completed := v\<rparr>) (filter (\<lambda>r. task_id r = k) xs)))
     = mset (map task_id xs)"
  by (induction xs) simp_all

lemma put_tasks_id_well_keyed:
  assumes "well_keyed d"
  shows "well_keyed (snd (put_tasks_id p i body d))"
proof -
  from put_tasks_id_rows [of p i body d]
  have ids: "mset (map task_id (tasks (snd (put_tasks_id p i body d))))
      = mset (map task_id (tasks d))"
    by (auto simp only: updated_ids_mset)
  then have "distinct (map task_id (tasks (snd (put_tasks_id p i body d))))
      \<longleftrightarrow> distinct (map task_id (tasks d))"
    by (rule mset_eq_imp_distinct_iff)
  moreover from ids have "set (map task_id (tasks (snd (put_tasks_id p i body d))))
      = set (map task_id (tasks d))"
    by (rule mset_eq_setD)
  ultimately show ?thesis
    using assms unfolding well_keyed_ids put_tasks_id_seq by simp
qed

lemma handle_well_keyed:
  assumes "well_keyed d"
  shows "well_keyed (snd (handle p q d))"
proof (cases q)
  case Get_tasks
  with assms show ?thesis by (simp add: get_tasks_rows)
next
  case (Post_tasks body)
  with post_tasks_well_keyed(1) [OF assms, of p body] show ?thesis
    by (cases "post_tasks p body d") simp
next
  case (Put_tasks_id i body)
  with put_tasks_id_well_keyed [OF assms] show ?thesis by simp
next
  case (Delete_tasks_id i)
  with delete_tasks_id_well_keyed(1) [OF assms, of p i] show ?thesis
    by (cases "delete_tasks_id p i d") simp
qed

lemma serve_well_keyed: "well_keyed d \<Longrightarrow> well_keyed (snd (serve qs d))"
proof (induction qs arbitrary: d)
  case Nil
  then show ?case by simp
next
  case (Cons pq qs)
  obtain p q where pq: "pq = (p, q)" by (cases pq)
  from Cons.prems have "well_keyed (snd (handle p q d))" by (rule handle_well_keyed)
  from Cons.IH [OF this] pq show ?case by (simp only: serve_step)
qed

lemma well_keyed_distinct: "well_keyed d \<Longrightarrow> distinct (map task_id (tasks d))"
  by (simp add: well_keyed_def)

end
